theory Spec2Isabelle
  imports Main
begin

section \<open>Runtime values\<close>

text \<open>
  The engine inspects values with \<^verbatim>\<open>typeof\<close>, \<^verbatim>\<open>Array.isArray\<close>,
  \<^verbatim>\<open>Object.prototype.toString\<close>, \<^verbatim>\<open>Reflect.ownKeys\<close>, property reads and
  \<^verbatim>\<open>===\<close>. The model keeps what these operations observe.

  \<^item> Numbers are \<open>NaN\<close> and the integers \<open>Num i\<close> with \<open>\<bar>i\<bar> \<le> 2^53\<close>, which a double holds
    exactly and prints with all its digits; fractional, larger and infinite doubles are
    outside the model (the engine never does arithmetic, it only tests the type and
    compares).
  \<^item> Every heap object carries an identity. \<open>Ref n\<close> names an object of the caller;
    \<open>Fresh\<close> marks an object allocated by the engine during the call that returns it.
  \<^item> An object \<open>VObject r c p kvs ats\<close> has the built-in tag \<open>c\<close> of its internal slots
    (\<^verbatim>\<open>Object\<close> for an ordinary object, an instance of a user class included;
    \<^verbatim>\<open>String\<close> for a String object, \<^verbatim>\<open>Error\<close>, \<^verbatim>\<open>RegExp\<close>, ...; a function is
    the atom \<open>AFunction\<close>), the prototype \<open>p\<close> it was given by \<^verbatim>\<open>Object.create(p)\<close> or by a
    constructor, and the association list \<open>kvs\<close> of its own properties; the list binds a
    key to its first entry, and \<^verbatim>\<open>Reflect.ownKeys\<close> lists each key once. The list \<open>ats\<close> gives the attribute of the
    own properties that are not writable data properties: \<open>ReadOnly\<close> for a data property
    that is not writable or an accessor without a setter (every property of a frozen object,
    the indices and the length of a String object), \<open>Setter\<close> for an accessor whose getter
    returns the stored value and whose setter returns without touching the receiver.
    Getters and setters that run other code, and proxies, are outside the model.
  \<^item> An array \<open>VArray r frozen xs\<close> is dense and has no own property besides its indices and
    its length; \<open>frozen\<close> tells whether \<^verbatim>\<open>Object.freeze\<close> was applied to it.
  \<^item> \<open>AInstance\<close> is an instance of a built-in class that has no own property and keeps
    its class in an internal slot, such as a \<^verbatim>\<open>Date\<close>: it is neither an array nor a plain
    object, and it is compared by identity.
  \<^item> A property that is found neither on an object nor on the prototypes the model gives it
    reads as \<^verbatim>\<open>undefined\<close>: the methods that \<^verbatim>\<open>Object.prototype\<close>,
    \<^verbatim>\<open>Array.prototype\<close> and \<^verbatim>\<open>Date.prototype\<close> supply are not modelled; none of them is
    a type guard and none has the key \<^verbatim>\<open>Symbol.toStringTag\<close>. An instance of a class
    whose prototype carries \<^verbatim>\<open>Symbol.toStringTag\<close> (a \<^verbatim>\<open>Map\<close>, a \<^verbatim>\<open>Promise\<close>) is an
    object whose prototype \<open>p\<close> has that own property.
  \<^item> A type guard is not a value: the functions of the engine are applied to data. The
    object that a type guard is, when it is handed over as data, is a frozen ordinary
    object: its five own properties are \<open>ReadOnly\<close>.
  \<^item> \<open>DEFsym\<close> is the module's private symbol \<^verbatim>\<open>Symbol('definition')\<close>, \<open>ToStringTag\<close>
    the well-known symbol \<^verbatim>\<open>Symbol.toStringTag\<close>.
\<close>

datatype error = TypeError

datatype number = NaN | Num int

datatype symbol = DEFsym | ToStringTag | Sym nat

datatype key = KStr string | KSym symbol

datatype oid = Ref nat | Fresh

datatype Atom =
    AUndefined
  | ANull
  | ABoolean bool
  | ANumber number
  | ABigInt int
  | AString string
  | ASymbol symbol
  | AFunction oid
  | AInstance oid

datatype attr = Writable | ReadOnly | Setter

datatype Value =
    VAtom Atom
  | VArray oid bool "Value list"
  | VObject oid string "Value option" "(key \<times> Value) list" "(key \<times> attr) list"

text \<open>
  A type definition is a type guard or a value used as a literal. An array or plain-object
  literal may hold type guards, so definitions repeat the shape of values with the guard as
  one more alternative. The slot \<^verbatim>\<open>[DEF]\<close> of a guard holds the string \<^verbatim>\<open>'typeguard'\<close>
  or a schema definition.
\<close>

datatype TypeGuard =
    TypeGuard (validate: "Value \<Rightarrow> bool") (transform: "Value \<Rightarrow> error + Value") (DEF: DefTag)
and DefTag = Typeguard | Shape SchemaDefinition
and SchemaDefinition =
    SchemaDef oid "SchemaDefinition option" "(key \<times> TypeDefinition) list"
and TypeDefinition =
    TG TypeGuard
  | TAtom Atom
  | TArray oid "TypeDefinition list"
  | TObject SchemaDefinition

abbreviation undefined_v :: Value where "undefined_v \<equiv> VAtom AUndefined"
abbreviation null_v :: Value where "null_v \<equiv> VAtom ANull"
abbreviation num :: "int \<Rightarrow> Value" where "num n \<equiv> VAtom (ANumber (Num n))"
abbreviation str :: "string \<Rightarrow> Value" where "str s \<equiv> VAtom (AString s)"
abbreviation obj :: "nat \<Rightarrow> (key \<times> Value) list \<Rightarrow> Value" where "obj n kvs \<equiv> VObject (Ref n) ''Object'' None kvs []"
abbreviation shape :: "nat \<Rightarrow> (key \<times> TypeDefinition) list \<Rightarrow> SchemaDefinition" where
  "shape n es \<equiv> SchemaDef (Ref n) None es"

subsection \<open>Inspecting values\<close>

fun typeofA :: "Atom \<Rightarrow> string" where
  "typeofA AUndefined = ''undefined''"
| "typeofA ANull = ''object''"
| "typeofA (ABoolean b) = ''boolean''"
| "typeofA (ANumber n) = ''number''"
| "typeofA (ABigInt i) = ''bigint''"
| "typeofA (AString s) = ''string''"
| "typeofA (ASymbol s) = ''symbol''"
| "typeofA (AFunction f) = ''function''"
| "typeofA (AInstance i) = ''object''"

fun typeof :: "Value \<Rightarrow> string" where
  "typeof (VAtom a) = typeofA a"
| "typeof (VArray r frozen xs) = ''object''"
| "typeof (VObject r c p kvs ats) = ''object''"


text \<open>
  Decimal numerals, for the index keys of an array and for \<^verbatim>\<open>String(k)\<close> on a number of
  the model, which prints with all its digits.
\<close>

fun dec :: "nat \<Rightarrow> string" where
  "dec n = (if n < 10 then [char_of (48 + n)] else dec (n div 10) @ [char_of (48 + n mod 10)])"

declare dec.simps [simp del]

definition numberToString :: "number \<Rightarrow> string" where
  "numberToString n =
     (case n of NaN \<Rightarrow> ''NaN''
      | Num i \<Rightarrow> (if i < 0 then CHR ''-'' # dec (nat (- i)) else dec (nat i)))"

text \<open>
  \<^verbatim>\<open>Reflect.ownKeys\<close> and the property read \<^verbatim>\<open>obj[k]\<close>. The engine asks for the own keys
  of objects only, after a test of \<^verbatim>\<open>typeof\<close> or \<^verbatim>\<open>isPlainObject\<close>.
\<close>

fun ownKeys :: "Value \<Rightarrow> key list" where
  "ownKeys (VObject r c p kvs ats) = remdups (map fst kvs)"
| "ownKeys (VArray r frozen xs) = map (\<lambda>i. KStr (dec i)) [0..<length xs] @ [KStr ''length'']"
| "ownKeys (VAtom a) = []"

fun getV :: "Value \<Rightarrow> key \<Rightarrow> Value" where
  "getV (VObject r c p kvs ats) k =
     (case map_of kvs k of Some v \<Rightarrow> v
      | None \<Rightarrow> (case p of Some q \<Rightarrow> getV q k | None \<Rightarrow> undefined_v))"
| "getV (VArray r frozen xs) k =
     (if k = KStr ''length'' then num (int (length xs))
      else (case find (\<lambda>i. k = KStr (dec i)) [0..<length xs] of
              Some i \<Rightarrow> xs ! i | None \<Rightarrow> undefined_v))"
| "getV (VAtom a) k = undefined_v"

text \<open>The attribute of an own property.\<close>

fun attrOf :: "Value \<Rightarrow> key \<Rightarrow> attr" where
  "attrOf (VObject r c p kvs ats) k = (case map_of ats k of Some a \<Rightarrow> a | None \<Rightarrow> Writable)"
| "attrOf (VArray r frozen xs) k = (if frozen then ReadOnly else Writable)"
| "attrOf (VAtom a) k = Writable"

text \<open>
  \<^verbatim>\<open>isPlainObject = toString.call(obj) === '[object Object]'\<close>. The tag that
  \<^verbatim>\<open>Object.prototype.toString\<close> prints for an object is its property
  \<^verbatim>\<open>Symbol.toStringTag\<close>, own or inherited, when that is a string, and its built-in tag
  otherwise. For \<^verbatim>\<open>undefined\<close>, \<^verbatim>\<open>null\<close>, a primitive, a function, an array and an
  \<open>AInstance\<close> the tag is not \<^verbatim>\<open>Object\<close>.
\<close>

fun isPlainObject :: "Value \<Rightarrow> bool" where
  "isPlainObject (VObject r c p kvs ats) =
     (case getV (VObject r c p kvs ats) (KSym ToStringTag) of
        VAtom (AString tag) \<Rightarrow> tag = ''Object''
      | _ \<Rightarrow> c = ''Object'')"
| "isPlainObject v = False"

definition ownKeysD :: "SchemaDefinition \<Rightarrow> key list" where
  "ownKeysD D = (case D of SchemaDef r p es \<Rightarrow> remdups (map fst es))"

text \<open>
  \<^verbatim>\<open>definition[k]\<close>: the own entry, else the prototype's, else \<^verbatim>\<open>undefined\<close>. For a key
  that no definition of the chain declares, an object literal would give the method of
  \<^verbatim>\<open>Object.prototype\<close> of that name, if there is one. The engine only asks whether what it
  reads for such a key is a type guard, and a method is none; the method
  \<^verbatim>\<open>definition(key)\<close> of a guard is used below on declared keys and on the definition of a
  union, which has no prototype.
\<close>

fun getD :: "SchemaDefinition \<Rightarrow> key \<Rightarrow> TypeDefinition" where
  "getD (SchemaDef r p es) k =
     (case map_of es k of Some d \<Rightarrow> d
      | None \<Rightarrow> (case p of Some q \<Rightarrow> getD q k | None \<Rightarrow> TAtom AUndefined))"

subsection \<open>Strict equality\<close>

text \<open>
  \<open>lit d\<close> is the value that the literal \<open>d\<close> is, when no type guard occurs in it. A
  definition \<open>d\<close> and a value \<open>v\<close> are \<^verbatim>\<open>===\<close> when they are the same primitive other than
  \<^verbatim>\<open>NaN\<close> or the same object (same identity, hence same contents). An array or object
  literal of a definition is an ordinary, unfrozen one.
\<close>

fun lit :: "TypeDefinition \<Rightarrow> Value option"
and litS :: "SchemaDefinition \<Rightarrow> Value option" where
  "lit (TG g) = None"
| "lit (TAtom a) = Some (VAtom a)"
| "lit (TArray r ds) =
     (if list_all (\<lambda>d. lit d \<noteq> None) ds then Some (VArray r False (map (\<lambda>d. the (lit d)) ds)) else None)"
| "lit (TObject D) = litS D"
| "litS (SchemaDef r p es) =
     (if (case p of None \<Rightarrow> True | Some q \<Rightarrow> litS q \<noteq> None) \<and> list_all (\<lambda>e. lit (snd e) \<noteq> None) es
      then Some (VObject r ''Object'' (case p of None \<Rightarrow> None | Some q \<Rightarrow> litS q)
                   (map (\<lambda>e. (fst e, the (lit (snd e)))) es) [])
      else None)"

definition strictEquals :: "TypeDefinition \<Rightarrow> Value \<Rightarrow> bool" where
  "strictEquals d v = (lit d = Some v \<and> v \<noteq> VAtom (ANumber NaN))"

section \<open>The value dispatcher and the object validator\<close>

fun isTypeGuard :: "TypeDefinition \<Rightarrow> bool" where
  "isTypeGuard (TG g) = True"
| "isTypeGuard d = False"

definition isSchemaTypeGuard :: "TypeDefinition \<Rightarrow> bool" where
  "isSchemaTypeGuard d = (case d of TG g \<Rightarrow> (case DEF g of Shape D \<Rightarrow> True | Typeguard \<Rightarrow> False) | _ \<Rightarrow> False)"

fun isIdenticalArray :: "Value \<Rightarrow> TypeDefinition \<Rightarrow> bool" where
  "isIdenticalArray (VArray r frozen xs) (TArray r' ds) =
     (if length xs \<noteq> length ds then False
      else list_all (\<lambda>i. strictEquals (ds ! i) (xs ! i)) [0..<length xs])"
| "isIdenticalArray v d = False"

lemma size_getD: "size (getD D k) < size D"
proof (induction D k rule: getD.induct)
  case (1 r p es k)
  show ?case
  proof (cases "map_of es k")
    case None
    then show ?thesis using 1 by (cases p) auto
  next
    case (Some d)
    then have "(k, d) \<in> set es" by (rule map_of_SomeD)
    then have "size d < Suc (size_list (size_prod (\<lambda>x. 0) size) es)"
      by (induction es) auto
    with Some show ?thesis by simp
  qed
qed

lemma size_getD_double: "2 * size (getD D k) < Suc (2 * size D)"
  using size_getD [of D k] by linarith

function validateValue :: "Value \<Rightarrow> TypeDefinition \<Rightarrow> bool"
and validateObject :: "Value \<Rightarrow> SchemaDefinition \<Rightarrow> bool \<Rightarrow> bool" where
  "validateValue v (TG g) = validate g v"
| "validateValue v (TArray r ds) = isIdenticalArray v (TArray r ds)"
| "validateValue v (TObject D) =
     (if typeof v \<noteq> ''object'' then False
      else isPlainObject v \<and> validateObject v D False)"
| "validateValue v (TAtom a) =
     (if typeofA a = ''object'' then
        (if typeof v \<noteq> ''object'' then False
         else if a = ANull then v = null_v
         else strictEquals (TAtom a) v)
      else strictEquals (TAtom a) v)"
| "validateObject ob D partial =
     (if \<not> isPlainObject ob then False
      else let objKeys = ownKeys ob; defKeys = ownKeysD D in
        if \<not> partial \<and> length objKeys \<noteq> length defKeys then False
        else if \<not> list_all (\<lambda>k. k \<in> set defKeys) objKeys then False
        else list_all (\<lambda>k.
               let v = getV ob k in
               if partial \<and> typeof v = ''undefined'' then True
               else validateValue v (getD D k)) objKeys)"
  by pat_completeness auto
termination
  by (relation "measure (\<lambda>x. case x of Inl (v, d) \<Rightarrow> 2 * size d | Inr (ob, D, partial) \<Rightarrow> 2 * size D + 1)")
     (auto simp: size_getD_double)

declare validateObject.simps [simp del]

section \<open>The type guard unit\<close>

definition defaultTransformer :: "Value \<Rightarrow> error + Value" where
  "defaultTransformer v = Inr v"

text \<open>
  \<^verbatim>\<open>constructor(validate, transform = defaultTransformer, {definition = 'typeguard'} = {})\<close>:
  an omitted argument is \<open>None\<close>.
\<close>

definition "constructor" :: "(Value \<Rightarrow> bool) \<Rightarrow> (Value \<Rightarrow> error + Value) option \<Rightarrow> SchemaDefinition option \<Rightarrow> TypeGuard" where
  "constructor v t d =
     TypeGuard v (case t of None \<Rightarrow> defaultTransformer | Some f \<Rightarrow> f)
                 (case d of None \<Rightarrow> Typeguard | Some D \<Rightarrow> Shape D)"


text \<open>
  \<^verbatim>\<open>config: c => constructor(c.validate ?? validate, c.transform ?? transform)\<close>. The
  overrides record has two optional members.
\<close>

record overrides =
  validate_o :: "(Value \<Rightarrow> bool) option"
  transform_o :: "(Value \<Rightarrow> error + Value) option"

definition config :: "TypeGuard \<Rightarrow> overrides \<Rightarrow> TypeGuard" where
  "config g c =
     constructor (case validate_o c of Some v \<Rightarrow> v | None \<Rightarrow> validate g)
                 (Some (case transform_o c of Some t \<Rightarrow> t | None \<Rightarrow> transform g))
                 None"

text \<open>The method \<^verbatim>\<open>definition(key?)\<close>; the slot itself as a definition is \<open>tagOf\<close>.\<close>

definition tagOf :: "TypeGuard \<Rightarrow> TypeDefinition" where
  "tagOf g = (case DEF g of Typeguard \<Rightarrow> TAtom (AString ''typeguard'') | Shape D \<Rightarrow> TObject D)"

definition definition_m :: "TypeGuard \<Rightarrow> key option \<Rightarrow> TypeDefinition" where
  "definition_m g key =
     (case key of None \<Rightarrow> tagOf g
      | Some k \<Rightarrow> (case DEF g of Shape D \<Rightarrow> getD D k | Typeguard \<Rightarrow> TAtom AUndefined))"

section \<open>The transformer\<close>

text \<open>
  The loop of \<^verbatim>\<open>transformObject\<close> over \<^verbatim>\<open>Reflect.ownKeys(obj)\<close>; an exception of a
  guard's transform leaves the loop. The module is strict code and \<^verbatim>\<open>newObj\<close> inherits
  from \<^verbatim>\<open>obj\<close>, so the assignment \<^verbatim>\<open>newObj[key] = ...\<close> finds the own property \<^verbatim>\<open>key\<close>
  of \<^verbatim>\<open>obj\<close> first: when that property is writable the assignment makes an own property
  of \<^verbatim>\<open>newObj\<close>, when it is read-only the assignment throws a \<^verbatim>\<open>TypeError\<close>, and when
  it has a setter the setter is called and \<^verbatim>\<open>newObj\<close> gets no own property.
\<close>

fun transformProps :: "SchemaDefinition \<Rightarrow> Value \<Rightarrow> key list \<Rightarrow> error + (key \<times> Value) list" where
  "transformProps D ob [] = Inr []"
| "transformProps D ob (k # ks) =
     (case (case getD D k of TG g \<Rightarrow> transform g (getV ob k) | _ \<Rightarrow> Inr (getV ob k)) of
        Inl e \<Rightarrow> Inl e
      | Inr v \<Rightarrow>
          (case attrOf ob k of
             ReadOnly \<Rightarrow> Inl TypeError
           | Setter \<Rightarrow> transformProps D ob ks
           | Writable \<Rightarrow> (case transformProps D ob ks of
                           Inl e \<Rightarrow> Inl e
                         | Inr kvs \<Rightarrow> Inr ((k, v) # kvs))))"

definition transformObject :: "Value \<Rightarrow> SchemaDefinition \<Rightarrow> error + Value" where
  "transformObject ob D =
     (if typeof ob \<noteq> ''object'' \<or> ob = null_v then Inr ob
      else (case transformProps D ob (ownKeys ob) of
              Inl e \<Rightarrow> Inl e
            | Inr kvs \<Rightarrow> Inr (VObject Fresh ''Object'' (Some ob) kvs [])))"


section \<open>Schemas and the derivation operators\<close>

definition Schema :: "SchemaDefinition \<Rightarrow> TypeGuard" where
  "Schema D =
     constructor (\<lambda>ob. validateObject ob D False) (Some (\<lambda>ob. transformObject ob D)) (Some D)"

text \<open>
  The operators take a schema guard or a bare schema definition:
  \<^verbatim>\<open>definition = isSchemaTypeGuard(schema) ? schema[DEF] : schema\<close>. A guard that is not
  schema-shaped is then used as an object itself: its own keys are its four methods and the
  private symbol. That object is frozen, so \<^verbatim>\<open>Pick\<close> and \<^verbatim>\<open>Omit\<close>, which copy entries
  into an object that inherits from it, are meant for the arguments that \<open>isSchemaInput\<close>
  accepts.
\<close>

datatype SchemaInput = OfGuard TypeGuard | OfObject SchemaDefinition


definition guardObject :: "TypeGuard \<Rightarrow> SchemaDefinition" where
  "guardObject g =
     SchemaDef Fresh None
       [(KStr ''validate'', TAtom (AFunction Fresh)),
        (KStr ''transform'', TAtom (AFunction Fresh)),
        (KStr ''definition'', TAtom (AFunction Fresh)),
        (KStr ''config'', TAtom (AFunction Fresh)),
        (KSym DEFsym, tagOf g)]"

definition definitionOf :: "SchemaInput \<Rightarrow> SchemaDefinition" where
  "definitionOf schema =
     (case schema of
        OfGuard g \<Rightarrow> (case DEF g of Shape D \<Rightarrow> D | Typeguard \<Rightarrow> guardObject g)
      | OfObject D \<Rightarrow> D)"

definition Partial :: "SchemaInput \<Rightarrow> TypeGuard" where
  "Partial schema =
     (let D = definitionOf schema in
      constructor (\<lambda>ob. validateObject ob D True) (Some (\<lambda>ob. transformObject ob D)) (Some D))"


text \<open>\<^verbatim>\<open>keys.includes(k)\<close> for a property key \<open>k\<close>, which is a string or a symbol.\<close>

fun keyValue :: "key \<Rightarrow> Value" where
  "keyValue (KStr s) = VAtom (AString s)"
| "keyValue (KSym y) = VAtom (ASymbol y)"

definition includesKey :: "Value list \<Rightarrow> key \<Rightarrow> bool" where
  "includesKey keys k = list_ex (\<lambda>x. x = keyValue k) keys"

definition Pick :: "SchemaInput \<Rightarrow> Value list \<Rightarrow> TypeGuard" where
  "Pick schema keys =
     (let D = definitionOf schema;
          defKeys = ownKeysD D;
          pickedDefinition = SchemaDef Fresh (Some D)
            (map (\<lambda>k. (k, getD D k)) (filter (\<lambda>k. includesKey keys k) defKeys))
      in constructor (\<lambda>ob. validateObject ob pickedDefinition False)
                     (Some (\<lambda>ob. transformObject ob pickedDefinition))
                     (Some pickedDefinition))"

definition Omit :: "SchemaInput \<Rightarrow> Value list \<Rightarrow> TypeGuard" where
  "Omit schema keys =
     (let D = definitionOf schema;
          defKeys = ownKeysD D;
          remainedDefinition = SchemaDef Fresh (Some D)
            (map (\<lambda>k. (k, getD D k)) (filter (\<lambda>k. \<not> includesKey keys k) defKeys))
      in constructor (\<lambda>ob. validateObject ob remainedDefinition False)
                     (Some (\<lambda>ob. transformObject ob remainedDefinition))
                     (Some remainedDefinition))"

section \<open>The union merge engine\<close>

text \<open>
  The assignment \<^verbatim>\<open>o[key] = v\<close> on an object without inherited setters: an existing own
  property keeps its place, a new one is appended.
\<close>

fun assign :: "'k \<Rightarrow> 'v \<Rightarrow> ('k \<times> 'v) list \<Rightarrow> ('k \<times> 'v) list" where
  "assign k v [] = [(k, v)]"
| "assign k v (p # ps) = (if fst p = k then (k, v) # ps else p # assign k v ps)"

text \<open>
  The shape of a candidate: \<^verbatim>\<open>type[DEF]\<close> when \<^verbatim>\<open>isSchemaTypeGuard(type)\<close>, the candidate
  itself when \<^verbatim>\<open>!isTypeGuard(type) && isPlainObject(type)\<close>, otherwise none.
\<close>

fun schemaDefOf :: "TypeDefinition \<Rightarrow> SchemaDefinition option" where
  "schemaDefOf (TG g) = (case DEF g of Shape D \<Rightarrow> Some D | Typeguard \<Rightarrow> None)"
| "schemaDefOf (TObject D) = Some D"
| "schemaDefOf d = None"

text \<open>
  The state of the two loops of \<^verbatim>\<open>Union\<close> is \<^verbatim>\<open>unionDef\<close> (undefined until the first
  shape-like candidate) and \<^verbatim>\<open>commonProps\<close>. The body of the inner loop calls
  \<^verbatim>\<open>Union\<close> itself on \<^verbatim>\<open>commonProps[key]\<close>; the loops take that function as \<open>U\<close>.
\<close>

type_synonym mergeState = "(key \<times> TypeDefinition) list \<times> (key \<times> TypeDefinition list) list"

definition stepKey ::
  "(TypeDefinition list \<Rightarrow> TypeGuard) \<Rightarrow> SchemaDefinition \<Rightarrow> mergeState \<Rightarrow> key \<Rightarrow> mergeState" where
  "stepKey U schemaDef st key =
     (case st of (unionDef, commonProps) \<Rightarrow>
        let schemaProp = getD schemaDef key;
            unionProp = (case map_of unionDef key of Some d \<Rightarrow> d | None \<Rightarrow> TAtom AUndefined)
        in if map_of unionDef key \<noteq> None then
             let props = (case map_of commonProps key of
                            Some ds \<Rightarrow> ds @ [schemaProp]
                          | None \<Rightarrow> [unionProp, schemaProp])
             in (assign key (TG (U props)) unionDef, assign key props commonProps)
           else (assign key schemaProp unionDef, commonProps))"

definition stepType ::
  "(TypeDefinition list \<Rightarrow> TypeGuard) \<Rightarrow>
   (key \<times> TypeDefinition) list option \<times> (key \<times> TypeDefinition list) list \<Rightarrow> TypeDefinition \<Rightarrow>
   (key \<times> TypeDefinition) list option \<times> (key \<times> TypeDefinition list) list" where
  "stepType U st type =
     (case st of (unionDef, commonProps) \<Rightarrow>
        (case schemaDefOf type of
           None \<Rightarrow> (unionDef, commonProps)
         | Some schemaDef \<Rightarrow>
             (case foldl (stepKey U schemaDef)
                     (case unionDef of None \<Rightarrow> [] | Some u \<Rightarrow> u, commonProps) (ownKeysD schemaDef) of
                (u, c) \<Rightarrow> (Some u, c))))"

definition mergeLoop ::
  "(TypeDefinition list \<Rightarrow> TypeGuard) \<Rightarrow> TypeDefinition list \<Rightarrow>
   (key \<times> TypeDefinition) list option \<times> (key \<times> TypeDefinition list) list" where
  "mergeLoop U types = foldl (stepType U) (None, []) types"

text \<open>
  The nested call terminates because every list in \<^verbatim>\<open>commonProps\<close> holds entries of
  distinct candidates already visited, so it is smaller than the list of candidates. The
  potential \<open>pot\<close> of a key bounds the size of the list the next nested call would get.
\<close>

lemma map_of_assign: "map_of (assign k v al) = (map_of al)(k \<mapsto> v)"
  by (induction al) auto

definition pot :: "mergeState \<Rightarrow> key \<Rightarrow> nat" where
  "pot st k = (case st of (u, c) \<Rightarrow>
     (case map_of c k of Some ds \<Rightarrow> size_list size ds
      | None \<Rightarrow> (case map_of u k of Some d \<Rightarrow> Suc (size d) | None \<Rightarrow> 0)))"

lemma stepKey_agree:
  assumes agree: "\<And>ds. size_list size ds \<le> B + s \<Longrightarrow> U ds = U' ds"
      and k: "pot st k \<le> B" and sk: "Suc (size (getD D k)) \<le> s"
  shows "stepKey U D st k = stepKey U' D st k \<and> pot (stepKey U D st k) k \<le> B + s
         \<and> (\<forall>k'. k' \<noteq> k \<longrightarrow> pot (stepKey U D st k) k' = pot st k')"
proof -
  obtain u c where st: "st = (u, c)" by (cases st)
  show ?thesis
  proof (cases "map_of u k")
    case None
    then show ?thesis using k sk st
      by (auto simp: stepKey_def pot_def map_of_assign split: option.splits)
  next
    case (Some d)
    show ?thesis
    proof (cases "map_of c k")
      case None
      have sz: "size_list size [d, getD D k] \<le> B + s"
        using k sk st Some None by (simp add: pot_def)
      from agree [OF sz] show ?thesis using Some None st sz
        by (auto simp: stepKey_def pot_def map_of_assign Let_def split: option.splits)
    next
      case (Some ds)
      have sz: "size_list size (ds @ [getD D k]) \<le> B + s"
        using k sk st Some by (simp add: pot_def)
      from agree [OF sz] show ?thesis using Some \<open>map_of u k = Some d\<close> st sz
        by (auto simp: stepKey_def pot_def map_of_assign Let_def split: option.splits)
    qed
  qed
qed

lemma foldl_stepKey_agree:
  assumes agree: "\<And>ds. size_list size ds \<le> B + s \<Longrightarrow> U ds = U' ds"
  shows "distinct ks \<Longrightarrow> \<forall>k \<in> set ks. pot st k \<le> B \<and> Suc (size (getD D k)) \<le> s \<Longrightarrow>
         \<forall>k. pot st k \<le> B + s \<Longrightarrow>
         foldl (stepKey U D) st ks = foldl (stepKey U' D) st ks \<and>
         (\<forall>k. pot (foldl (stepKey U D) st ks) k \<le> B + s)"
proof (induction ks arbitrary: st)
  case Nil
  then show ?case by simp
next
  case (Cons k ks)
  have kk: "pot st k \<le> B" "Suc (size (getD D k)) \<le> s" using Cons.prems by auto
  note step = stepKey_agree [of B s U U', OF agree kk]
  let ?st = "stepKey U D st k"
  have 1: "\<forall>k' \<in> set ks. pot ?st k' \<le> B \<and> Suc (size (getD D k')) \<le> s"
    using Cons.prems step by auto
  have 2: "\<forall>k'. pot ?st k' \<le> B + s"
  proof
    fix k' show "pot ?st k' \<le> B + s"
      using step Cons.prems(3) by (cases "k' = k") auto
  qed
  have "distinct ks" using Cons.prems by simp
  from Cons.IH [OF this 1 2]
  have ih: "foldl (stepKey U D) ?st ks = foldl (stepKey U' D) ?st ks"
    and bd: "\<forall>k. pot (foldl (stepKey U D) ?st ks) k \<le> B + s" by blast+
  have eq: "?st = stepKey U' D st k" using step by simp
  have "foldl (stepKey U D) st (k # ks) = foldl (stepKey U D) ?st ks" by simp
  also have "\<dots> = foldl (stepKey U' D) ?st ks" by (rule ih)
  also have "\<dots> = foldl (stepKey U' D) st (k # ks)" by (simp only: eq foldl.simps)
  finally have "foldl (stepKey U D) st (k # ks) = foldl (stepKey U' D) st (k # ks)" .
  moreover have "\<forall>ka. pot (foldl (stepKey U D) st (k # ks)) ka \<le> B + s" using bd by simp
  ultimately show ?case by blast
qed

lemma distinct_ownKeysD: "distinct (ownKeysD D)"
  by (cases D) (simp add: ownKeysD_def)

lemma own_entry:
  assumes "k \<in> set (ownKeysD D)"
  obtains r p es d where "D = SchemaDef r p es" "map_of es k = Some d" "(k, d) \<in> set es"
proof -
  obtain r p es where D: "D = SchemaDef r p es" by (cases D)
  with assms have "k \<in> fst ` set es" by (simp add: ownKeysD_def)
  then obtain d where m: "map_of es k = Some d"
    by (metis domD dom_map_of_conv_image_fst)
  then have "(k, d) \<in> set es" by (rule map_of_SomeD)
  with D m that show ?thesis by blast
qed

lemma size_own_entry:
  assumes "k \<in> set (ownKeysD D)"
  shows "Suc (size (getD D k)) < size D"
proof -
  from assms obtain r p es d where D: "D = SchemaDef r p es" and m: "map_of es k = Some d"
    and e: "(k, d) \<in> set es" by (rule own_entry)
  from e have "Suc (size d) < Suc (size_list (size_prod (\<lambda>x. 0) size) es)"
    by (induction es) auto
  with m D show ?thesis by simp
qed

lemma size_schemaDefOf: "schemaDefOf t = Some D \<Longrightarrow> size D < size t"
  by (cases t) (auto split: DefTag.splits, (case_tac x1, auto)+)

lemma stepType_agree:
  assumes agree: "\<And>ds. size_list size ds \<le> B + size t \<Longrightarrow> U ds = U' ds"
      and b: "\<forall>k. pot (case uo of None \<Rightarrow> [] | Some u \<Rightarrow> u, c) k \<le> B"
  shows "stepType U (uo, c) t = stepType U' (uo, c) t \<and>
         (\<forall>k. pot (case fst (stepType U (uo, c) t) of None \<Rightarrow> [] | Some u \<Rightarrow> u, snd (stepType U (uo, c) t)) k
               \<le> B + size t)"
proof (cases "schemaDefOf t")
  case None
  then show ?thesis using b by (auto simp: stepType_def intro: le_trans)
next
  case (Some D)
  let ?st = "(case uo of None \<Rightarrow> [] | Some u \<Rightarrow> u, c)"
  have sD: "size D < size t" using Some by (rule size_schemaDefOf)
  have 1: "\<forall>k \<in> set (ownKeysD D). pot ?st k \<le> B \<and> Suc (size (getD D k)) \<le> size t"
    using b size_own_entry [of _ D] sD by (auto intro: less_imp_le less_trans)
  have 2: "\<forall>k. pot ?st k \<le> B + size t" using b by (auto intro: le_trans)
  from foldl_stepKey_agree [of B "size t" U U', OF agree distinct_ownKeysD 1 2]
  show ?thesis using Some by (auto simp: stepType_def split: prod.splits)
qed

lemma foldl_stepType_agree:
  assumes agree: "\<And>ds. size_list size ds < N \<Longrightarrow> U ds = U' ds"
  shows "\<forall>k. pot (case fst st of None \<Rightarrow> [] | Some u \<Rightarrow> u, snd st) k \<le> B \<Longrightarrow>
         B + size_list size ts \<le> N \<Longrightarrow>
         foldl (stepType U) st ts = foldl (stepType U') st ts"
proof (induction ts arbitrary: st B)
  case Nil
  then show ?case by simp
next
  case (Cons t ts)
  obtain uo c where st: "st = (uo, c)" by (cases st)
  have a: "\<And>ds. size_list size ds \<le> B + size t \<Longrightarrow> U ds = U' ds"
    using Cons.prems(2) by (intro agree) simp
  have b: "\<forall>k. pot (case uo of None \<Rightarrow> [] | Some u \<Rightarrow> u, c) k \<le> B"
    using Cons.prems(1) st by simp
  note step = stepType_agree [of B t U U', OF a b]
  let ?st = "stepType U (uo, c) t"
  have 1: "\<forall>k. pot (case fst ?st of None \<Rightarrow> [] | Some u \<Rightarrow> u, snd ?st) k \<le> B + size t"
    using step by blast
  have 2: "(B + size t) + size_list size ts \<le> N" using Cons.prems(2) by simp
  have ih: "foldl (stepType U) ?st ts = foldl (stepType U') ?st ts"
    by (rule Cons.IH [OF 1 2])
  have eq: "?st = stepType U' (uo, c) t" using step by blast
  have "foldl (stepType U) st (t # ts) = foldl (stepType U) ?st ts" by (simp add: st)
  also have "\<dots> = foldl (stepType U') ?st ts" by (rule ih)
  also have "\<dots> = foldl (stepType U') st (t # ts)" by (simp only: eq foldl.simps st)
  finally show ?case .
qed

lemma mergeLoop_cong [fundef_cong]:
  assumes "types = types'"
      and "\<And>ds. size_list size ds < size_list size types' \<Longrightarrow> U ds = U' ds"
  shows "mergeLoop U types = mergeLoop U' types'"
proof -
  have "foldl (stepType U) (None, []) types' = foldl (stepType U') (None, []) types'"
  proof (rule foldl_stepType_agree [where B = 0 and N = "size_list size types'"])
    show "\<And>ds. size_list size ds < size_list size types' \<Longrightarrow> U ds = U' ds" by (rule assms(2))
    show "\<forall>k. pot (case fst (None, []) of None \<Rightarrow> [] | Some u \<Rightarrow> u, snd (None, [])) k \<le> 0"
      by (simp add: pot_def)
    show "0 + size_list size types' \<le> size_list size types'" by simp
  qed
  then show ?thesis by (simp add: mergeLoop_def assms(1))
qed

text \<open>
  \<^verbatim>\<open>Union(...types)\<close>. The merged definition is made by \<^verbatim>\<open>Object.create(null)\<close>; the
  auxiliary guard \<^verbatim>\<open>unionSchema\<close> validates against it in exact mode.
\<close>

function Union_tg :: "TypeDefinition list \<Rightarrow> TypeGuard" where
  "Union_tg types =
     (let unionDef = map_option (SchemaDef Fresh None) (fst (mergeLoop (\<lambda>ds. Union_tg ds) types));
          unionSchema = constructor
            (\<lambda>ob. case unionDef of Some D \<Rightarrow> validateObject ob D False | None \<Rightarrow> False) None None
      in constructor
           (\<lambda>v. if \<not> isPlainObject v then list_ex (\<lambda>type. validateValue v type) types
                else list_ex (\<lambda>type. case type of TG g \<Rightarrow> validate g v | _ \<Rightarrow> validateValue v type)
                       (TG unionSchema # types))
           (Some (\<lambda>v. case find (\<lambda>type. validateValue v type) types of
                         Some (TG g) \<Rightarrow> transform g v
                       | _ \<Rightarrow> Inr v))
           unionDef)"
  by pat_completeness auto
termination
  by (relation "measure (size_list size)") auto

declare Union_tg.simps [simp del]

text \<open>The merged definition that \<^verbatim>\<open>Union\<close> stores, when there is one.\<close>

definition mergedDefinition :: "TypeDefinition list \<Rightarrow> SchemaDefinition option" where
  "mergedDefinition types = map_option (SchemaDef Fresh None) (fst (mergeLoop Union_tg types))"




section \<open>Combinators\<close>




text \<open>\<^verbatim>\<open>value.split(delimiter)\<close> for a string delimiter.\<close>

fun splitAt :: "string \<Rightarrow> string \<Rightarrow> string \<Rightarrow> string list" where
  "splitAt sep acc [] = [rev acc]"
| "splitAt sep acc (c # cs) =
     (if sep \<noteq> [] \<and> take (length sep) (c # cs) = sep
      then rev acc # splitAt sep [] (drop (length sep - 1) cs)
      else splitAt sep (c # acc) cs)"

definition split :: "string \<Rightarrow> string \<Rightarrow> string list" where
  "split s sep = (if sep = [] then map (\<lambda>c. [c]) s else splitAt sep [] s)"


text \<open>
  \<^verbatim>\<open>Record(keys, value)\<close>. A listed key that is a number is compared as \<^verbatim>\<open>String(k)\<close>;
  the value of a property is checked by the guard's \<^verbatim>\<open>validate\<close> or, for any other
  definition, by \<^verbatim>\<open>value !== obj[key]\<close>.
\<close>

fun validKey :: "TypeDefinition \<Rightarrow> TypeDefinition" where
  "validKey (TAtom (ANumber n)) = TAtom (AString (numberToString n))"
| "validKey k = k"

definition Record :: "TypeDefinition \<Rightarrow> TypeDefinition \<Rightarrow> TypeGuard" where
  "Record keys val =
     constructor
       (\<lambda>ob. if (case keys of TArray r ks \<Rightarrow> False | TG kg \<Rightarrow> False | _ \<Rightarrow> True) then False
             else if \<not> isPlainObject ob then False
             else list_all (\<lambda>key.
                    (case keys of
                       TG kg \<Rightarrow> validate kg (keyValue key)
                     | TArray r ks \<Rightarrow> list_ex (\<lambda>k. lit (validKey k) = Some (keyValue key)) ks
                     | _ \<Rightarrow> False)
                    \<and> (case val of
                         TG vg \<Rightarrow> validate vg (getV ob key)
                       | _ \<Rightarrow> strictEquals val (getV ob key)))
                  (ownKeys ob))
       None None"





section \<open>Atomic leaves\<close>

definition Boolean :: TypeGuard where
  "Boolean = constructor (\<lambda>v. typeof v = ''boolean'') None None"

definition Number :: TypeGuard where
  "Number = constructor (\<lambda>v. typeof v = ''number'') None None"

definition BigInt :: TypeGuard where
  "BigInt = constructor (\<lambda>v. typeof v = ''bigint'') None None"

definition String :: TypeGuard where
  "String = constructor (\<lambda>v. typeof v = ''string'') None None"

definition Symbol :: TypeGuard where
  "Symbol = constructor (\<lambda>v. typeof v = ''symbol'') None None"

definition Undefined :: TypeGuard where
  "Undefined = constructor (\<lambda>v. typeof v = ''undefined'') None None"

definition Null :: TypeGuard where
  "Null = constructor (\<lambda>v. v = null_v) None None"

definition Object :: TypeGuard where
  "Object = constructor (\<lambda>v. typeof v = ''object'') None None"

definition Function :: TypeGuard where
  "Function = constructor (\<lambda>v. typeof v = ''function'') None None"


definition Unknown :: TypeGuard where
  "Unknown = constructor (\<lambda>v. True) None None"

definition Any :: TypeGuard where
  "Any = constructor (\<lambda>v. True) None None"

text \<open>
  \<^verbatim>\<open>StringNumber\<close> converts with the host's \<^verbatim>\<open>Number(value)\<close>, which throws a
  \<^verbatim>\<open>TypeError\<close> on a symbol. The conversion is followed on the primitives and, for a
  string, on the optionally signed decimal integer numerals between white space. The other
  numerals that \<^verbatim>\<open>Number\<close> reads (fractions, exponents, hexadecimal, \<^verbatim>\<open>Infinity\<close>) and
  the conversion of an array or an object through its \<^verbatim>\<open>valueOf\<close> and \<^verbatim>\<open>toString\<close>
  are not followed: they stand as \<open>NaN\<close> here, and the properties below apply
  \<^verbatim>\<open>StringNumber\<close> to decimal integer numerals and to symbols only.
\<close>

definition isWhiteSpace :: "char \<Rightarrow> bool" where
  "isWhiteSpace c = (c \<in> set [CHR '' '', CHR 0x09, CHR 0x0A, CHR 0x0B, CHR 0x0C, CHR 0x0D])"

definition trim :: "string \<Rightarrow> string" where
  "trim s = rev (dropWhile isWhiteSpace (rev (dropWhile isWhiteSpace s)))"

definition isDigit :: "char \<Rightarrow> bool" where
  "isDigit c = ((48 :: nat) \<le> of_char c \<and> (of_char c :: nat) \<le> 57)"

definition digitsValue :: "string \<Rightarrow> nat" where
  "digitsValue ds = foldl (\<lambda>n c. 10 * n + (of_char c - 48)) 0 ds"

definition StringToNumber :: "string \<Rightarrow> number" where
  "StringToNumber s =
     (let t = trim s in
      if t = [] then Num 0
      else (case t of
              c # ds \<Rightarrow>
                if (c = CHR ''-'' \<or> c = CHR ''+'') \<and> ds \<noteq> [] \<and> list_all isDigit ds
                then Num (if c = CHR ''-'' then - int (digitsValue ds) else int (digitsValue ds))
                else if list_all isDigit t then Num (int (digitsValue t))
                else NaN))"

fun ToNumber :: "Value \<Rightarrow> error + number" where
  "ToNumber (VAtom AUndefined) = Inr NaN"
| "ToNumber (VAtom ANull) = Inr (Num 0)"
| "ToNumber (VAtom (ABoolean b)) = Inr (Num (if b then 1 else 0))"
| "ToNumber (VAtom (ANumber n)) = Inr n"
| "ToNumber (VAtom (ABigInt i)) = Inr (Num i)"
| "ToNumber (VAtom (AString s)) = Inr (StringToNumber s)"
| "ToNumber (VAtom (ASymbol y)) = Inl TypeError"
| "ToNumber v = Inr NaN"

definition StringNumber :: TypeGuard where
  "StringNumber =
     constructor
       (\<lambda>v. case v of
          VAtom (AString s) \<Rightarrow> trim s \<noteq> [] \<and> StringToNumber s \<noteq> NaN
        | _ \<Rightarrow> False)
       (Some (\<lambda>v. case ToNumber v of Inl e \<Rightarrow> Inl e | Inr n \<Rightarrow> Inr (VAtom (ANumber n))))
       None"

section \<open>Guards built by the core\<close>


section \<open>The schemas of the examples\<close>

text \<open>\<^verbatim>\<open>SchemaA = T.Schema({ a: T.Number, b: T.String })\<close> and
  \<^verbatim>\<open>SchemaB = T.Schema({ a: T.String })\<close>.\<close>

definition SchemaA :: TypeGuard where
  "SchemaA = Schema (shape 1 [(KStr ''a'', TG Number), (KStr ''b'', TG String)])"

definition SchemaB :: TypeGuard where
  "SchemaB = Schema (shape 2 [(KStr ''a'', TG String)])"

text \<open>A schema with the keys \<open>a\<close>, \<open>b\<close>, \<open>c\<close>.\<close>

definition SchemaABC :: SchemaInput where
  "SchemaABC = OfObject (shape 5 [(KStr ''a'', TG Number), (KStr ''b'', TG String), (KStr ''c'', TG Number)])"

text \<open>
  The schema definition \<^verbatim>\<open>{1: T.Number, a: T.String}\<close>: the own keys of the object are the
  strings \<^verbatim>\<open>'1'\<close> and \<^verbatim>\<open>'a'\<close>.
\<close>

definition Schema1A :: SchemaInput where
  "Schema1A = OfObject (shape 6 [(KStr ''1'', TG Number), (KStr ''a'', TG String)])"

section \<open>Properties\<close>

subsection \<open>Members of the guards\<close>

lemma DEF_constructor: "DEF (constructor v t d) = (case d of None \<Rightarrow> Typeguard | Some D \<Rightarrow> Shape D)"
  by (simp add: constructor_def)

lemma validate_constructor: "validate (constructor v t d) = v"
  by (simp add: constructor_def)

lemma transform_constructor:
  "transform (constructor v t d) = (case t of None \<Rightarrow> defaultTransformer | Some f \<Rightarrow> f)"
  by (simp add: constructor_def)

lemma Schema_validate: "validate (Schema D) ob = validateObject ob D False"
  by (simp add: Schema_def validate_constructor)



lemma Schema_DEF: "DEF (Schema D) = Shape D"
  by (simp add: Schema_def DEF_constructor)

lemma Partial_validate: "validate (Partial s) ob = validateObject ob (definitionOf s) True"
  by (simp add: Partial_def validate_constructor Let_def)

lemma definitionOf_Schema: "definitionOf (OfGuard (Schema D)) = D"
  by (simp add: definitionOf_def Schema_DEF)

lemma Number_validate: "validate Number v = (typeof v = ''number'')"
  by (simp add: Number_def validate_constructor)

lemma String_validate: "validate String v = (typeof v = ''string'')"
  by (simp add: String_def validate_constructor)

lemmas eval_schema = Schema_validate Partial_validate definitionOf_Schema validateObject.simps
  ownKeysD_def Number_validate String_validate

subsection \<open>The object validator\<close>

lemma typeof_undefined: "typeof v = ''undefined'' \<longleftrightarrow> v = undefined_v"
proof (cases v)
  case (VAtom a)
  then show ?thesis by (cases a) simp_all
qed simp_all

lemma distinct_ownKeys_plain: "isPlainObject ob \<Longrightarrow> distinct (ownKeys ob)"
  by (cases ob) auto

lemma exact_keys:
  assumes "distinct xs" "distinct ys"
  shows "(length xs = length ys \<and> list_all (\<lambda>k. k \<in> set ys) xs) \<longleftrightarrow> set xs = set ys"
proof
  assume h: "length xs = length ys \<and> list_all (\<lambda>k. k \<in> set ys) xs"
  then have sub: "set xs \<subseteq> set ys" by (auto simp: list_all_iff)
  have "card (set xs) = card (set ys)" using assms h by (simp add: distinct_card)
  with sub show "set xs = set ys" by (simp add: card_subset_eq)
next
  assume "set xs = set ys"
  then show "length xs = length ys \<and> list_all (\<lambda>k. k \<in> set ys) xs"
    using assms by (metis distinct_card list_all_iff)
qed

lemma validateObject_exact:
  "validateObject ob D False \<longleftrightarrow>
     isPlainObject ob \<and> set (ownKeys ob) = set (ownKeysD D) \<and>
     (\<forall>k \<in> set (ownKeys ob). validateValue (getV ob k) (getD D k))"
proof (cases "isPlainObject ob")
  case False
  then show ?thesis by (simp add: validateObject.simps)
next
  case True
  note k = exact_keys [OF distinct_ownKeys_plain [OF True] distinct_ownKeysD [of D]]
  show ?thesis
    using True k by (auto simp: validateObject.simps Let_def list_all_iff)
qed

lemma validateObject_partial:
  "validateObject ob D True \<longleftrightarrow>
     isPlainObject ob \<and> set (ownKeys ob) \<subseteq> set (ownKeysD D) \<and>
     (\<forall>k \<in> set (ownKeys ob). getV ob k = undefined_v \<or> validateValue (getV ob k) (getD D k))"
  by (auto simp: validateObject.simps Let_def list_all_iff typeof_undefined)

text \<open>
  C4, as the code has it. In exact mode \<^verbatim>\<open>validateObject(obj, definition)\<close> succeeds exactly
  when \<open>obj\<close> passes \<^verbatim>\<open>isPlainObject\<close>, its own keys are the definition's own keys (same
  count, same set) and every own value validates against the definition declared for its
  key; an array does not pass \<^verbatim>\<open>isPlainObject\<close>. For
  \<^verbatim>\<open>S = Schema({a: Number, b: String})\<close>, \<^verbatim>\<open>S.validate({a:1,b:"x"})\<close> is true and
  \<^verbatim>\<open>S.validate({a:1})\<close>, \<^verbatim>\<open>S.validate({a:1,b:"x",c:0})\<close> are false.
\<close>

theorem exact_mode_plain_object:
  "(validateObject ob D False \<longleftrightarrow>
      isPlainObject ob \<and> length (ownKeys ob) = length (ownKeysD D) \<and>
      set (ownKeys ob) = set (ownKeysD D) \<and>
      (\<forall>k \<in> set (ownKeys ob). validateValue (getV ob k) (getD D k)))
   \<and> \<not> isPlainObject (VArray r frozen xs)
   \<and> validate SchemaA (obj 3 [(KStr ''a'', num 1), (KStr ''b'', str ''x'')])
   \<and> \<not> validate SchemaA (obj 3 [(KStr ''a'', num 1)])
   \<and> \<not> validate SchemaA (obj 3 [(KStr ''a'', num 1), (KStr ''b'', str ''x''), (KStr ''c'', num 0)])"
proof -
  have "set (ownKeys ob) = set (ownKeysD D) \<Longrightarrow> isPlainObject ob \<Longrightarrow>
        length (ownKeys ob) = length (ownKeysD D)"
    using exact_keys [OF distinct_ownKeys_plain distinct_ownKeysD, of ob D] by blast
  then have "validateObject ob D False \<longleftrightarrow>
      isPlainObject ob \<and> length (ownKeys ob) = length (ownKeysD D) \<and>
      set (ownKeys ob) = set (ownKeysD D) \<and>
      (\<forall>k \<in> set (ownKeys ob). validateValue (getV ob k) (getD D k))"
    using validateObject_exact [of ob D] by blast
  moreover have "\<not> isPlainObject (VArray r frozen xs)" by simp
  moreover have "validate SchemaA (obj 3 [(KStr ''a'', num 1), (KStr ''b'', str ''x'')])"
    by (simp add: SchemaA_def eval_schema)
  moreover have "\<not> validate SchemaA (obj 3 [(KStr ''a'', num 1)])"
    by (simp add: SchemaA_def eval_schema)
  moreover have "\<not> validate SchemaA (obj 3 [(KStr ''a'', num 1), (KStr ''b'', str ''x''), (KStr ''c'', num 0)])"
    by (simp add: SchemaA_def eval_schema)
  ultimately show ?thesis by blast
qed

theorem exact_mode_plain_object_witness:
  "isPlainObject (obj 3 [(KStr ''a'', num 1)]) \<and>
   set (ownKeys (obj 3 [(KStr ''a'', num 1)])) = set (ownKeysD (shape 4 [(KStr ''a'', TG Number)])) \<and>
   validateObject (obj 3 [(KStr ''a'', num 1)]) (shape 4 [(KStr ''a'', TG Number)]) False"
  using exact_mode_plain_object [of "obj 3 [(KStr ''a'', num 1)]" "shape 4 [(KStr ''a'', TG Number)]"]
  by (simp add: ownKeysD_def Number_validate)

text \<open>
  The claim C4 as it is worded gives no condition on \<open>obj\<close>. The empty array and the
  definition \<^verbatim>\<open>{length: Number}\<close> have the same own keys and the value of \<^verbatim>\<open>length\<close> is a
  number, yet the array is rejected since it does not pass \<^verbatim>\<open>isPlainObject\<close>.
\<close>

theorem exact_mode_array_counterexample:
  "ownKeys (VArray (Ref 1) False []) = [KStr ''length''] \<and>
   ownKeysD (shape 2 [(KStr ''length'', TG Number)]) = [KStr ''length''] \<and>
   validateValue (getV (VArray (Ref 1) False []) (KStr ''length''))
                 (getD (shape 2 [(KStr ''length'', TG Number)]) (KStr ''length'')) \<and>
   \<not> validateObject (VArray (Ref 1) False []) (shape 2 [(KStr ''length'', TG Number)]) False"
  by (simp add: ownKeysD_def Number_validate validateObject.simps)

text \<open>
  C5. In partial mode a plain object is accepted exactly when each of its own keys is a key of
  the schema and each own value is \<^verbatim>\<open>undefined\<close> or validates against its declared
  definition: declared keys may be missing, an own \<^verbatim>\<open>undefined\<close> is accepted whatever the
  declared type (\<^verbatim>\<open>String\<close> rejects \<^verbatim>\<open>undefined\<close>), a key outside the schema is rejected.
  \<^verbatim>\<open>Partial(S)\<close> accepts \<^verbatim>\<open>{a:1}\<close> and \<^verbatim>\<open>{a:1,b:undefined}\<close> and rejects \<^verbatim>\<open>{a:1,c:0}\<close>.
\<close>

theorem partial_mode_tolerance:
  "(validateObject ob D True \<longleftrightarrow>
      isPlainObject ob \<and> set (ownKeys ob) \<subseteq> set (ownKeysD D) \<and>
      (\<forall>k \<in> set (ownKeys ob). getV ob k = undefined_v \<or> validateValue (getV ob k) (getD D k)))
   \<and> \<not> validate String undefined_v
   \<and> validate (Partial (OfGuard SchemaA)) (obj 3 [(KStr ''a'', num 1)])
   \<and> validate (Partial (OfGuard SchemaA)) (obj 3 [(KStr ''a'', num 1), (KStr ''b'', undefined_v)])
   \<and> \<not> validate (Partial (OfGuard SchemaA)) (obj 3 [(KStr ''a'', num 1), (KStr ''c'', num 0)])"
proof -
  have "\<not> validate String undefined_v" by (simp add: String_validate)
  moreover have "validate (Partial (OfGuard SchemaA)) (obj 3 [(KStr ''a'', num 1)])"
    by (simp add: SchemaA_def eval_schema)
  moreover have "validate (Partial (OfGuard SchemaA)) (obj 3 [(KStr ''a'', num 1), (KStr ''b'', undefined_v)])"
    by (simp add: SchemaA_def eval_schema)
  moreover have "\<not> validate (Partial (OfGuard SchemaA)) (obj 3 [(KStr ''a'', num 1), (KStr ''c'', num 0)])"
    by (simp add: SchemaA_def eval_schema)
  ultimately show ?thesis using validateObject_partial [of ob D] by blast
qed

theorem partial_mode_tolerance_witness:
  "isPlainObject (obj 3 [(KStr ''b'', undefined_v)]) \<and>
   set (ownKeys (obj 3 [(KStr ''b'', undefined_v)]))
     \<subseteq> set (ownKeysD (shape 1 [(KStr ''a'', TG Number), (KStr ''b'', TG String)])) \<and>
   validateObject (obj 3 [(KStr ''b'', undefined_v)])
     (shape 1 [(KStr ''a'', TG Number), (KStr ''b'', TG String)]) True"
  using partial_mode_tolerance [of "obj 3 [(KStr ''b'', undefined_v)]"
      "shape 1 [(KStr ''a'', TG Number), (KStr ''b'', TG String)]"]
  by (simp add: ownKeysD_def)

subsection \<open>The union\<close>


lemma list_ex_guard_case:
  "list_ex (\<lambda>type. case type of TG g \<Rightarrow> validate g v | _ \<Rightarrow> validateValue v type) ts
   = list_ex (\<lambda>type. validateValue v type) ts"
proof -
  have "(\<lambda>type. case type of TG g \<Rightarrow> validate g v | _ \<Rightarrow> validateValue v type) = (\<lambda>type. validateValue v type)"
    by (rule ext) (simp split: TypeDefinition.splits)
  then show ?thesis by simp
qed

lemma Union_validate:
  "validate (Union_tg types) v =
     (if \<not> isPlainObject v then list_ex (\<lambda>type. validateValue v type) types
      else (case mergedDefinition types of Some D \<Rightarrow> validateObject v D False | None \<Rightarrow> False)
           \<or> list_ex (\<lambda>type. validateValue v type) types)"
  by (subst Union_tg.simps)
     (simp add: validate_constructor mergedDefinition_def Let_def list_ex_guard_case)

lemma Union_transform:
  "transform (Union_tg types) v =
     (case find (\<lambda>type. validateValue v type) types of
        Some (TG g) \<Rightarrow> transform g v
      | _ \<Rightarrow> Inr v)"
  by (subst Union_tg.simps) (simp add: transform_constructor Let_def)

lemma mergedAB:
  "mergedDefinition [TG SchemaA, TG SchemaB]
   = Some (SchemaDef Fresh None [(KStr ''a'', TG (Union_tg [TG Number, TG String])), (KStr ''b'', TG String)])"
  by (simp add: mergedDefinition_def mergeLoop_def stepType_def stepKey_def SchemaA_def SchemaB_def
        Schema_DEF ownKeysD_def Let_def)

lemma mergedNS: "mergedDefinition [TG Number, TG String] = None"
  by (simp add: mergedDefinition_def mergeLoop_def stepType_def Number_def String_def DEF_constructor)

lemmas eval_union = Union_validate mergedAB mergedNS validateObject.simps ownKeysD_def


text \<open>
  C1. For \<^verbatim>\<open>U = Union(SchemaA, SchemaB)\<close> the merged definition widens the shared key \<open>a\<close>
  to \<^verbatim>\<open>Union(Number, String)\<close> and keeps \<open>b\<close>. \<open>U\<close> accepts \<^verbatim>\<open>{a:0,b:""}\<close>, \<^verbatim>\<open>{a:""}\<close>
  and the cross-variant value \<^verbatim>\<open>{a:"",b:""}\<close>, which neither schema accepts, and rejects
  \<^verbatim>\<open>{a:0}\<close> and \<^verbatim>\<open>{b:""}\<close>. In general a plain object is accepted by a union exactly when
  it passes the merged definition in exact mode or some candidate accepts it through
  \<^verbatim>\<open>validateValue\<close>.
\<close>

theorem Union_shared_key_widening:
  "validate (Union_tg [TG SchemaA, TG SchemaB]) (obj 3 [(KStr ''a'', num 0), (KStr ''b'', str '''')])
   \<and> validate (Union_tg [TG SchemaA, TG SchemaB]) (obj 3 [(KStr ''a'', str '''')])
   \<and> validate (Union_tg [TG SchemaA, TG SchemaB]) (obj 3 [(KStr ''a'', str ''''), (KStr ''b'', str '''')])
   \<and> \<not> validate (Union_tg [TG SchemaA, TG SchemaB]) (obj 3 [(KStr ''a'', num 0)])
   \<and> \<not> validate (Union_tg [TG SchemaA, TG SchemaB]) (obj 3 [(KStr ''b'', str '''')])
   \<and> mergedDefinition [TG SchemaA, TG SchemaB]
       = Some (SchemaDef Fresh None
                [(KStr ''a'', TG (Union_tg [TG Number, TG String])), (KStr ''b'', TG String)])
   \<and> \<not> validate SchemaA (obj 3 [(KStr ''a'', str ''''), (KStr ''b'', str '''')])
   \<and> \<not> validate SchemaB (obj 3 [(KStr ''a'', str ''''), (KStr ''b'', str '''')])
   \<and> (isPlainObject v \<longrightarrow>
        (validate (Union_tg types) v \<longleftrightarrow>
           (\<exists>M. mergedDefinition types = Some M \<and> validateObject v M False)
           \<or> (\<exists>type \<in> set types. validateValue v type)))"
proof -
  have 1: "validate (Union_tg [TG SchemaA, TG SchemaB]) (obj 3 [(KStr ''a'', num 0), (KStr ''b'', str '''')])"
    by (simp add: eval_union) (simp_all add: SchemaA_def SchemaB_def eval_schema)
  have 2: "validate (Union_tg [TG SchemaA, TG SchemaB]) (obj 3 [(KStr ''a'', str '''')])"
    by (simp add: eval_union) (simp_all add: SchemaA_def SchemaB_def eval_schema)
  have 3: "validate (Union_tg [TG SchemaA, TG SchemaB]) (obj 3 [(KStr ''a'', str ''''), (KStr ''b'', str '''')])"
    by (simp add: eval_union) (simp_all add: SchemaA_def SchemaB_def eval_schema)
  have 4: "\<not> validate (Union_tg [TG SchemaA, TG SchemaB]) (obj 3 [(KStr ''a'', num 0)])"
    by (simp add: eval_union) (simp_all add: SchemaA_def SchemaB_def eval_schema)
  have 5: "\<not> validate (Union_tg [TG SchemaA, TG SchemaB]) (obj 3 [(KStr ''b'', str '''')])"
    by (simp add: eval_union) (simp_all add: SchemaA_def SchemaB_def eval_schema)
  have 6: "\<not> validate SchemaA (obj 3 [(KStr ''a'', str ''''), (KStr ''b'', str '''')])"
    by (simp add: SchemaA_def eval_schema)
  have 7: "\<not> validate SchemaB (obj 3 [(KStr ''a'', str ''''), (KStr ''b'', str '''')])"
    by (simp add: SchemaB_def eval_schema)
  have 8: "isPlainObject v \<longrightarrow>
        (validate (Union_tg types) v \<longleftrightarrow>
           (\<exists>M. mergedDefinition types = Some M \<and> validateObject v M False)
           \<or> (\<exists>type \<in> set types. validateValue v type))"
    by (auto simp: Union_validate list_ex_iff split: option.splits)
  from 1 2 3 4 5 6 7 8 mergedAB show ?thesis by blast
qed

theorem Union_shared_key_widening_witness:
  "isPlainObject (obj 3 [(KStr ''a'', str '''')]) \<and>
   validateValue (obj 3 [(KStr ''a'', str '''')]) (TG SchemaB) \<and>
   validate (Union_tg [TG Number, TG SchemaB]) (obj 3 [(KStr ''a'', str '''')])"
  using Union_shared_key_widening [of "obj 3 [(KStr ''a'', str '''')]" "[TG Number, TG SchemaB]"]
  by (simp add: SchemaB_def eval_schema)
















text \<open>
  C7. The transform of a union is decided by the first candidate, in declaration order, that
  \<^verbatim>\<open>validateValue\<close> accepts: a guard gives its own transform of the value, any other
  candidate and the absence of a match give the value back. The merged definition plays no
  part: a value accepted through it alone is returned as it is.
\<close>

theorem Union_transform_first_match:
  "(i < length types \<and> validateValue v (types ! i) \<and> (\<forall>j < i. \<not> validateValue v (types ! j)) \<longrightarrow>
      transform (Union_tg types) v = (case types ! i of TG g \<Rightarrow> transform g v | _ \<Rightarrow> Inr v))
   \<and> ((\<forall>type \<in> set types. \<not> validateValue v type) \<longrightarrow> transform (Union_tg types) v = Inr v)
   \<and> transform (Union_tg types) v =
       (case find (\<lambda>type. validateValue v type) types of Some (TG g) \<Rightarrow> transform g v | _ \<Rightarrow> Inr v)"
proof (intro conjI impI)
  assume h: "i < length types \<and> validateValue v (types ! i) \<and> (\<forall>j < i. \<not> validateValue v (types ! j))"
  then have "find (\<lambda>type. validateValue v type) types = Some (types ! i)"
    by (auto simp: find_Some_iff)
  then show "transform (Union_tg types) v = (case types ! i of TG g \<Rightarrow> transform g v | _ \<Rightarrow> Inr v)"
    by (simp add: Union_transform split: TypeDefinition.splits)
next
  assume "\<forall>type \<in> set types. \<not> validateValue v type"
  then have "find (\<lambda>type. validateValue v type) types = None"
    by (auto simp: find_None_iff)
  then show "transform (Union_tg types) v = Inr v" by (simp add: Union_transform)
next
  show "transform (Union_tg types) v =
       (case find (\<lambda>type. validateValue v type) types of Some (TG g) \<Rightarrow> transform g v | _ \<Rightarrow> Inr v)"
    by (rule Union_transform)
qed

lemma StringNumber_validate:
  "validate StringNumber v =
     (case v of VAtom (AString s) \<Rightarrow> trim s \<noteq> [] \<and> StringToNumber s \<noteq> NaN | _ \<Rightarrow> False)"
  by (simp add: StringNumber_def validate_constructor)

lemma StringNumber_transform:
  "transform StringNumber v = (case ToNumber v of Inl e \<Rightarrow> Inl e | Inr n \<Rightarrow> Inr (VAtom (ANumber n)))"
  by (simp add: StringNumber_def transform_constructor)

lemma trim_12: "trim ''12'' = ''12''"
  by (simp add: trim_def isWhiteSpace_def)

lemma StringToNumber_12: "StringToNumber ''12'' = Num 12"
  by (simp add: StringToNumber_def trim_12 isDigit_def digitsValue_def)

theorem Union_transform_first_match_witness:
  "Suc 0 < length [TG Number, TG StringNumber] \<and>
   validateValue (str ''12'') ([TG Number, TG StringNumber] ! Suc 0) \<and>
   \<not> validateValue (str ''12'') ([TG Number, TG StringNumber] ! 0) \<and>
   transform (Union_tg [TG Number, TG StringNumber]) (str ''12'') = Inr (num 12) \<and>
   \<not> validateValue (obj 3 [(KStr ''a'', str ''''), (KStr ''b'', str '''')]) (TG SchemaA) \<and>
   \<not> validateValue (obj 3 [(KStr ''a'', str ''''), (KStr ''b'', str '''')]) (TG SchemaB) \<and>
   validate (Union_tg [TG SchemaA, TG SchemaB]) (obj 3 [(KStr ''a'', str ''''), (KStr ''b'', str '''')]) \<and>
   transform (Union_tg [TG SchemaA, TG SchemaB]) (obj 3 [(KStr ''a'', str ''''), (KStr ''b'', str '''')])
     = Inr (obj 3 [(KStr ''a'', str ''''), (KStr ''b'', str '''')])"
proof -
  have a: "validateValue (str ''12'') (TG StringNumber)"
    by (simp add: StringNumber_validate trim_12 StringToNumber_12)
  have b: "\<not> validateValue (str ''12'') (TG Number)" by (simp add: Number_validate)
  have c: "transform StringNumber (str ''12'') = Inr (num 12)"
    by (simp add: StringNumber_transform StringToNumber_12)
  let ?v = "obj 3 [(KStr ''a'', str ''''), (KStr ''b'', str '''')]"
  have d: "\<not> validateValue ?v (TG SchemaA)" by (simp add: SchemaA_def eval_schema)
  have e: "\<not> validateValue ?v (TG SchemaB)" by (simp add: SchemaB_def eval_schema)
  have f: "validate (Union_tg [TG SchemaA, TG SchemaB]) ?v"
    by (simp add: eval_union) (simp_all add: SchemaA_def SchemaB_def eval_schema)
  from Union_transform_first_match [of "Suc 0" "[TG Number, TG StringNumber]" "str ''12''"]
       Union_transform_first_match [of 0 "[TG SchemaA, TG SchemaB]" ?v]
       a b c d e f
  show ?thesis by simp
qed

subsection \<open>Pick and Omit\<close>

lemma keyValue_inj: "keyValue k = keyValue k' \<longleftrightarrow> k = k'"
  by (cases k; cases k') auto

lemma includesKey_keys: "includesKey (map keyValue P) k \<longleftrightarrow> k \<in> set P"
  by (auto simp: includesKey_def list_ex_iff keyValue_inj)

lemma Pick_eq_Omit:
  assumes "set P \<union> set C = set (ownKeysD (definitionOf S))" "set P \<inter> set C = {}"
  shows "Pick S (map keyValue P) = Omit S (map keyValue C)"
proof -
  have "filter (\<lambda>k. includesKey (map keyValue P) k) (ownKeysD (definitionOf S))
      = filter (\<lambda>k. \<not> includesKey (map keyValue C) k) (ownKeysD (definitionOf S))"
    using assms by (intro filter_cong) (auto simp: includesKey_keys)
  then show ?thesis by (simp add: Pick_def Omit_def Let_def)
qed

text \<open>
  When the key lists \<open>P\<close> and \<open>C\<close> are written with the strings and symbols that
  \<^verbatim>\<open>Reflect.ownKeys\<close> reports and split the own keys of a schema, \<^verbatim>\<open>Pick(S, P)\<close> and
  \<^verbatim>\<open>Omit(S, C)\<close> accept the same values.
\<close>

lemma Pick_Omit_same_spelling:
  assumes "set P \<union> set C = set (ownKeysD (definitionOf S))" "set P \<inter> set C = {}"
  shows "validate (Pick S (map keyValue P)) v = validate (Omit S (map keyValue C)) v"
  using Pick_eq_Omit [OF assms] by simp

lemma Pick_validate:
  "validate (Pick S keys) ob =
     validateObject ob (SchemaDef Fresh (Some (definitionOf S))
        (map (\<lambda>k. (k, getD (definitionOf S) k))
             (filter (\<lambda>k. includesKey keys k) (ownKeysD (definitionOf S))))) False"
  by (simp add: Pick_def Let_def validate_constructor)

lemma Omit_validate:
  "validate (Omit S keys) ob =
     validateObject ob (SchemaDef Fresh (Some (definitionOf S))
        (map (\<lambda>k. (k, getD (definitionOf S) k))
             (filter (\<lambda>k. \<not> includesKey keys k) (ownKeysD (definitionOf S))))) False"
  by (simp add: Omit_def Let_def validate_constructor)

lemma dec_1: "dec (Suc 0) = ''1''"
  by code_simp

text \<open>
  C6 at \<^verbatim>\<open>S = {1: Number, a: String}\<close>, whose key set splits into \<open>{1}\<close> and \<open>{a}\<close>. The
  signature of \<^verbatim>\<open>Pick\<close> and \<^verbatim>\<open>Omit\<close> types a key as \<^verbatim>\<open>keyof\<close> the schema, so the key
  \<open>1\<close> is passed as the number \<open>1\<close>. The own keys of \<open>S\<close> are the strings \<^verbatim>\<open>'1'\<close> and
  \<^verbatim>\<open>'a'\<close>, and \<^verbatim>\<open>keys.includes(k)\<close> compares without conversion: \<^verbatim>\<open>Pick(S, [1])\<close> picks
  nothing and rejects \<^verbatim>\<open>{1: 5}\<close>, which \<^verbatim>\<open>Omit(S, ['a'])\<close> accepts; \<^verbatim>\<open>Omit(S, [1])\<close> omits
  nothing and rejects \<^verbatim>\<open>{a: "x"}\<close>, which \<^verbatim>\<open>Pick(S, ['a'])\<close> accepts. The key written as
  the string \<^verbatim>\<open>'1'\<close> is picked, and \<^verbatim>\<open>Record\<close>, which converts the numbers of its key list
  with \<^verbatim>\<open>String(k)\<close>, accepts \<^verbatim>\<open>{1: 5}\<close> for the key list \<^verbatim>\<open>[1]\<close>. For the schema with
  the keys \<open>a\<close>, \<open>b\<close>, \<open>c\<close>, \<^verbatim>\<open>Pick(S, ['a', 'b'])\<close> and \<^verbatim>\<open>Omit(S, ['c'])\<close> agree on
  every value.
\<close>

theorem Pick_number_key_not_picked:
  "validate (Pick SchemaABC [str ''a'', str ''b'']) v = validate (Omit SchemaABC [str ''c'']) v \<and>
   ownKeysD (definitionOf Schema1A) = [KStr ''1'', KStr ''a''] \<and>
   \<not> validate (Pick Schema1A [num 1]) (obj 3 [(KStr ''1'', num 5)]) \<and>
   validate (Omit Schema1A [str ''a'']) (obj 3 [(KStr ''1'', num 5)]) \<and>
   \<not> validate (Omit Schema1A [num 1]) (obj 3 [(KStr ''a'', str ''x'')]) \<and>
   validate (Pick Schema1A [str ''a'']) (obj 3 [(KStr ''a'', str ''x'')]) \<and>
   validate (Pick Schema1A [str ''1'']) (obj 3 [(KStr ''1'', num 5)]) \<and>
   validate (Record (TArray (Ref 6) [TAtom (ANumber (Num 1))]) (TG Number)) (obj 3 [(KStr ''1'', num 5)])"
proof -
  have k: "ownKeysD (definitionOf Schema1A) = [KStr ''1'', KStr ''a'']"
    by (simp add: Schema1A_def definitionOf_def ownKeysD_def)
  note ev = validateObject.simps ownKeysD_def Schema1A_def definitionOf_def Number_validate
    String_validate
  have 1: "\<not> validate (Pick Schema1A [num 1]) (obj 3 [(KStr ''1'', num 5)])"
    by (simp add: Pick_validate k includesKey_def) (simp_all add: ev)
  have 2: "validate (Omit Schema1A [str ''a'']) (obj 3 [(KStr ''1'', num 5)])"
    by (simp add: Omit_validate k includesKey_def) (simp_all add: ev)
  have 3: "\<not> validate (Omit Schema1A [num 1]) (obj 3 [(KStr ''a'', str ''x'')])"
    by (simp add: Omit_validate k includesKey_def) (simp_all add: ev)
  have 4: "validate (Pick Schema1A [str ''a'']) (obj 3 [(KStr ''a'', str ''x'')])"
    by (simp add: Pick_validate k includesKey_def) (simp_all add: ev)
  have 5: "validate (Pick Schema1A [str ''1'']) (obj 3 [(KStr ''1'', num 5)])"
    by (simp add: Pick_validate k includesKey_def) (simp_all add: ev)
  have 6: "validate (Record (TArray (Ref 6) [TAtom (ANumber (Num 1))]) (TG Number)) (obj 3 [(KStr ''1'', num 5)])"
    by (simp add: Record_def validate_constructor numberToString_def dec_1 Number_validate)
  have "Pick SchemaABC (map keyValue [KStr ''a'', KStr ''b'']) = Omit SchemaABC (map keyValue [KStr ''c''])"
    by (rule Pick_eq_Omit) (auto simp: SchemaABC_def definitionOf_def ownKeysD_def)
  then have 7: "validate (Pick SchemaABC [str ''a'', str ''b'']) v = validate (Omit SchemaABC [str ''c'']) v"
    by simp
  from k 1 2 3 4 5 6 7 show ?thesis by blast
qed

subsection \<open>The transformer\<close>

lemma digitsValue_snoc: "digitsValue (ds @ [c]) = 10 * digitsValue ds + (of_char c - 48)"
  by (simp add: digitsValue_def)

lemma digitsValue_dec: "digitsValue (dec n) = n"
proof (induction n rule: dec.induct)
  case (1 n)
  show ?case
  proof (cases "n < 10")
    case True
    then show ?thesis by (subst dec.simps) (simp add: digitsValue_def)
  next
    case False
    have "n mod 10 < 10" by simp
    then have "(48 + n mod 10) mod 256 = 48 + n mod 10" by simp
    with False 1 show ?thesis
      by (subst dec.simps) (simp add: digitsValue_snoc)
  qed
qed

lemma dec_inj: "dec m = dec n \<longleftrightarrow> m = n"
  by (metis digitsValue_dec)

lemma last_dec: "last (dec n) = char_of (48 + n mod 10)"
  by (subst dec.simps) simp

lemma dec_not_length: "dec n \<noteq> ''length''"
proof
  assume "dec n = ''length''"
  then have "last (dec n) = CHR ''h''" by simp
  then have "of_char (char_of (48 + n mod 10) :: char) = (of_char (CHR ''h'') :: nat)"
    by (simp add: last_dec)
  moreover have "(48 + n mod 10) mod 256 = 48 + n mod 10" by simp
  ultimately have "48 + n mod 10 = 104" by simp
  moreover have "n mod 10 < 10" by simp
  ultimately show False by linarith
qed

lemma distinct_ownKeys: "distinct (ownKeys ob)"
proof (cases ob)
  case (VArray r frozen xs)
  have "inj_on (\<lambda>i. KStr (dec i)) (set [0..<length xs])"
    by (auto simp: inj_on_def dec_inj)
  then show ?thesis using VArray by (auto simp: distinct_map dec_not_length dec_not_length [THEN not_sym])
qed auto

lemma transformProps_ok:
  assumes "\<forall>k \<in> set ks. attrOf ob k \<noteq> ReadOnly"
      and "\<forall>k \<in> set ks. \<forall>g. getD D k = TG g \<longrightarrow> (\<exists>w. transform g (getV ob k) = Inr w)"
  shows "transformProps D ob ks =
           Inr (map (\<lambda>k. (k, case getD D k of TG g \<Rightarrow> projr (transform g (getV ob k)) | _ \<Rightarrow> getV ob k))
                    (filter (\<lambda>k. attrOf ob k = Writable) ks))"
  using assms
proof (induction ks)
  case Nil
  then show ?case by simp
next
  case (Cons k ks)
  then have ih: "transformProps D ob ks =
           Inr (map (\<lambda>k. (k, case getD D k of TG g \<Rightarrow> projr (transform g (getV ob k)) | _ \<Rightarrow> getV ob k))
                    (filter (\<lambda>k. attrOf ob k = Writable) ks))"
    by simp
  from Cons.prems have a: "attrOf ob k \<noteq> ReadOnly" by simp
  show ?case
  proof (cases "getD D k")
    case (TG g)
    with Cons.prems obtain w where "transform g (getV ob k) = Inr w" by auto
    with TG ih a show ?thesis by (cases "attrOf ob k") simp_all
  qed (use ih a in \<open>cases "attrOf ob k"; simp\<close>)+
qed

lemma transformProps_throws:
  assumes "k \<in> set ks" "getD D k = TG g" "transform g (getV ob k) = Inl e"
  shows "\<exists>e'. transformProps D ob ks = Inl e'"
  using assms
proof (induction ks)
  case Nil
  then show ?case by simp
next
  case (Cons a ks)
  show ?case
  proof (cases "a = k")
    case True
    with Cons.prems show ?thesis by simp
  next
    case False
    with Cons obtain e' where "transformProps D ob ks = Inl e'" by auto
    then show ?thesis by (simp split: sum.splits TypeDefinition.splits attr.splits)
  qed
qed

lemma transformProps_read_only:
  assumes "k \<in> set ks" "attrOf ob k = ReadOnly"
  shows "\<exists>e. transformProps D ob ks = Inl e"
  using assms
proof (induction ks)
  case Nil
  then show ?case by simp
next
  case (Cons a ks)
  show ?case
  proof (cases "a = k")
    case True
    with Cons.prems show ?thesis by (simp split: sum.splits TypeDefinition.splits)
  next
    case False
    with Cons obtain e' where "transformProps D ob ks = Inl e'" by auto
    then show ?thesis by (simp split: sum.splits TypeDefinition.splits attr.splits)
  qed
qed

lemma transformObject_read_only:
  assumes "typeof ob = ''object''" "ob \<noteq> null_v" "k \<in> set (ownKeys ob)" "attrOf ob k = ReadOnly"
  shows "\<exists>e. transformObject ob D = Inl e"
proof -
  from assms(3,4) obtain e where "transformProps D ob (ownKeys ob) = Inl e"
    using transformProps_read_only by blast
  with assms(1,2) show ?thesis by (simp add: transformObject_def)
qed

lemma map_of_key_map: "k \<in> set ks \<Longrightarrow> map_of (map (\<lambda>k. (k, f k)) ks) k = Some (f k)"
  by (induction ks) auto

lemma created_neq: "VObject r c (Some ob) kvs ats \<noteq> ob"
proof
  assume "VObject r c (Some ob) kvs ats = ob"
  then have "size (VObject r c (Some ob) kvs ats) = size ob" by simp
  then show False by simp
qed

text \<open>
  C9, as the code has it. \<^verbatim>\<open>transformObject\<close> gives a value that is not an object, and
  \<^verbatim>\<open>null\<close>, back. For an object whose own properties are writable data properties it
  returns a new object, made by \<^verbatim>\<open>Object.create(obj)\<close> and so distinct from \<open>obj\<close>, with
  the own keys of \<open>obj\<close>: a key whose definition \<^verbatim>\<open>D[k]\<close> is a type guard holds that guard's
  transform of \<^verbatim>\<open>obj[k]\<close>, any other key (a nested bare shape too) holds \<^verbatim>\<open>obj[k]\<close> itself.
  The transforms that it calls are taken to return; the exception of one that throws leaves
  \<^verbatim>\<open>transformObject\<close>, and so does the \<^verbatim>\<open>TypeError\<close> of the assignment when an own
  property of \<open>obj\<close> is read-only.
\<close>

theorem transformObject_shallow:
  "(typeof ob \<noteq> ''object'' \<or> ob = null_v \<longrightarrow> transformObject ob D = Inr ob)
   \<and> (typeof ob = ''object'' \<and> ob \<noteq> null_v \<and>
       (\<forall>k \<in> set (ownKeys ob). attrOf ob k = Writable) \<and>
       (\<forall>k \<in> set (ownKeys ob). \<forall>g. getD D k = TG g \<longrightarrow> (\<exists>w. transform g (getV ob k) = Inr w)) \<longrightarrow>
        (\<exists>new. transformObject ob D = Inr new \<and> new \<noteq> ob \<and>
           ownKeys new = ownKeys ob \<and>
           (\<forall>k \<in> set (ownKeys ob).
              case getD D k of
                TG g \<Rightarrow> transform g (getV ob k) = Inr (getV new k)
              | _ \<Rightarrow> getV new k = getV ob k)))
   \<and> (typeof ob = ''object'' \<and> ob \<noteq> null_v \<and>
       (\<exists>k \<in> set (ownKeys ob). \<exists>g e. getD D k = TG g \<and> transform g (getV ob k) = Inl e) \<longrightarrow>
        (\<exists>e. transformObject ob D = Inl e))
   \<and> (typeof ob = ''object'' \<and> ob \<noteq> null_v \<and>
       (\<exists>k \<in> set (ownKeys ob). attrOf ob k = ReadOnly) \<longrightarrow>
        (\<exists>e. transformObject ob D = Inl e))"
proof (intro conjI impI)
  assume "typeof ob \<noteq> ''object'' \<or> ob = null_v"
  then show "transformObject ob D = Inr ob" by (auto simp: transformObject_def)
next
  assume h: "typeof ob = ''object'' \<and> ob \<noteq> null_v \<and>
       (\<forall>k \<in> set (ownKeys ob). attrOf ob k = Writable) \<and>
       (\<forall>k \<in> set (ownKeys ob). \<forall>g. getD D k = TG g \<longrightarrow> (\<exists>w. transform g (getV ob k) = Inr w))"
  let ?f = "\<lambda>k. case getD D k of TG g \<Rightarrow> projr (transform g (getV ob k)) | _ \<Rightarrow> getV ob k"
  let ?kvs = "map (\<lambda>k. (k, ?f k)) (ownKeys ob)"
  let ?new = "VObject Fresh ''Object'' (Some ob) ?kvs []"
  have w: "\<forall>k \<in> set (ownKeys ob). attrOf ob k \<noteq> ReadOnly" using h by simp
  have fl: "filter (\<lambda>k. attrOf ob k = Writable) (ownKeys ob) = ownKeys ob"
    using h by (simp add: filter_id_conv)
  have t: "transformObject ob D = Inr ?new"
    using h transformProps_ok [of "ownKeys ob" ob D, OF w] by (simp add: transformObject_def fl)
  have keys: "ownKeys ?new = ownKeys ob"
    using distinct_ownKeys [of ob] by (simp add: comp_def)
  have vals: "\<forall>k \<in> set (ownKeys ob).
              case getD D k of
                TG g \<Rightarrow> transform g (getV ob k) = Inr (getV ?new k)
              | _ \<Rightarrow> getV ?new k = getV ob k"
  proof
    fix k assume k: "k \<in> set (ownKeys ob)"
    then have g: "getV ?new k = ?f k" by (simp add: map_of_key_map)
    show "case getD D k of
                TG g \<Rightarrow> transform g (getV ob k) = Inr (getV ?new k)
              | _ \<Rightarrow> getV ?new k = getV ob k"
    proof (cases "getD D k")
      case (TG gd)
      with h k obtain w where "transform gd (getV ob k) = Inr w" by blast
      with TG g show ?thesis by (simp del: getV.simps)
    qed (use g in \<open>simp_all del: getV.simps\<close>)
  qed
  show "\<exists>new. transformObject ob D = Inr new \<and> new \<noteq> ob \<and>
           ownKeys new = ownKeys ob \<and>
           (\<forall>k \<in> set (ownKeys ob).
              case getD D k of
                TG g \<Rightarrow> transform g (getV ob k) = Inr (getV new k)
              | _ \<Rightarrow> getV new k = getV ob k)"
    using t keys vals created_neq [of Fresh "''Object''" ob ?kvs "[]"] by (intro exI [of _ ?new]) simp
next
  assume h: "typeof ob = ''object'' \<and> ob \<noteq> null_v \<and>
       (\<exists>k \<in> set (ownKeys ob). \<exists>g e. getD D k = TG g \<and> transform g (getV ob k) = Inl e)"
  then obtain k g e where "k \<in> set (ownKeys ob)" "getD D k = TG g" "transform g (getV ob k) = Inl e"
    by blast
  then obtain e' where "transformProps D ob (ownKeys ob) = Inl e'"
    using transformProps_throws by blast
  with h show "\<exists>e. transformObject ob D = Inl e" by (simp add: transformObject_def)
next
  assume h: "typeof ob = ''object'' \<and> ob \<noteq> null_v \<and>
       (\<exists>k \<in> set (ownKeys ob). attrOf ob k = ReadOnly)"
  then obtain k where "k \<in> set (ownKeys ob)" "attrOf ob k = ReadOnly" by blast
  with h show "\<exists>e. transformObject ob D = Inl e"
    using transformObject_read_only [of ob k D] by blast
qed

theorem transformObject_shallow_witness:
  "typeof (num 5) = ''number'' \<and>
   transformObject (num 5) (shape 1 [(KStr ''a'', TG StringNumber)]) = Inr (num 5) \<and>
   typeof (obj 3 [(KStr ''a'', str ''12''), (KStr ''n'', obj 4 [(KStr ''b'', str ''12'')])]) = ''object'' \<and>
   attrOf (obj 3 [(KStr ''a'', str ''12''), (KStr ''n'', obj 4 [(KStr ''b'', str ''12'')])]) (KStr ''a'') = Writable \<and>
   transform StringNumber (str ''12'') = Inr (num 12) \<and>
   transformObject (obj 3 [(KStr ''a'', str ''12''), (KStr ''n'', obj 4 [(KStr ''b'', str ''12'')])])
       (shape 1 [(KStr ''a'', TG StringNumber), (KStr ''n'', TObject (shape 2 [(KStr ''b'', TG StringNumber)]))])
     = Inr (VObject Fresh ''Object'' (Some (obj 3 [(KStr ''a'', str ''12''), (KStr ''n'', obj 4 [(KStr ''b'', str ''12'')])]))
              [(KStr ''a'', num 12), (KStr ''n'', obj 4 [(KStr ''b'', str ''12'')])] []) \<and>
   transform StringNumber (VAtom (ASymbol (Sym 0))) = Inl TypeError \<and>
   transformObject (obj 3 [(KStr ''a'', VAtom (ASymbol (Sym 0)))]) (shape 1 [(KStr ''a'', TG StringNumber)])
     = Inl TypeError \<and>
   attrOf (VObject (Ref 3) ''Object'' None [(KStr ''a'', num 1)] [(KStr ''a'', ReadOnly)]) (KStr ''a'') = ReadOnly \<and>
   transformObject (VObject (Ref 3) ''Object'' None [(KStr ''a'', num 1)] [(KStr ''a'', ReadOnly)])
       (shape 1 [(KStr ''a'', TG StringNumber)])
     = Inl TypeError"
  using transformObject_shallow [of "num 5" "shape 1 [(KStr ''a'', TG StringNumber)]"]
        transformObject_shallow [of "obj 3 [(KStr ''a'', str ''12''), (KStr ''n'', obj 4 [(KStr ''b'', str ''12'')])]"
          "shape 1 [(KStr ''a'', TG StringNumber), (KStr ''n'', TObject (shape 2 [(KStr ''b'', TG StringNumber)]))]"]
        transformObject_shallow [of "obj 3 [(KStr ''a'', VAtom (ASymbol (Sym 0)))]" "shape 1 [(KStr ''a'', TG StringNumber)]"]
        transformObject_shallow [of "VObject (Ref 3) ''Object'' None [(KStr ''a'', num 1)] [(KStr ''a'', ReadOnly)]"
          "shape 1 [(KStr ''a'', TG StringNumber)]"]
  by (simp add: transformObject_def StringNumber_transform StringToNumber_12)

text \<open>
  The claim C9 speaks of every object that is not \<^verbatim>\<open>null\<close>. A frozen object
  \<^verbatim>\<open>Object.freeze({a: 1})\<close>, a frozen array and the String object \<^verbatim>\<open>new String('ab')\<close> have
  read-only own properties: \<^verbatim>\<open>transformObject\<close> throws on them, whatever the definition.
  For an object whose property \<open>a\<close> has a setter it returns an object without the own key
  \<open>a\<close>.
\<close>

theorem transformObject_read_only_counterexample:
  "typeof (VObject (Ref 3) ''Object'' None [(KStr ''a'', num 1)] [(KStr ''a'', ReadOnly)]) = ''object'' \<and>
   transformObject (VObject (Ref 3) ''Object'' None [(KStr ''a'', num 1)] [(KStr ''a'', ReadOnly)])
       (shape 1 [(KStr ''a'', TG Number)])
     = Inl TypeError \<and>
   transformObject (VArray (Ref 4) True []) (shape 1 [(KStr ''a'', TG Number)]) = Inl TypeError \<and>
   ownKeys (VObject (Ref 5) ''String'' None
              [(KStr ''0'', str ''a''), (KStr ''1'', str ''b''), (KStr ''length'', num 2)]
              [(KStr ''0'', ReadOnly), (KStr ''1'', ReadOnly), (KStr ''length'', ReadOnly)])
     = [KStr ''0'', KStr ''1'', KStr ''length''] \<and>
   transformObject (VObject (Ref 5) ''String'' None
              [(KStr ''0'', str ''a''), (KStr ''1'', str ''b''), (KStr ''length'', num 2)]
              [(KStr ''0'', ReadOnly), (KStr ''1'', ReadOnly), (KStr ''length'', ReadOnly)])
       (shape 1 [(KStr ''a'', TG Number)])
     = Inl TypeError \<and>
   transformObject (VObject (Ref 6) ''Object'' None [(KStr ''a'', num 1)] [(KStr ''a'', Setter)])
       (shape 1 [(KStr ''a'', TG Number)])
     = Inr (VObject Fresh ''Object''
              (Some (VObject (Ref 6) ''Object'' None [(KStr ''a'', num 1)] [(KStr ''a'', Setter)])) [] []) \<and>
   ownKeys (VObject (Ref 6) ''Object'' None [(KStr ''a'', num 1)] [(KStr ''a'', Setter)]) = [KStr ''a''] \<and>
   ownKeys (VObject Fresh ''Object''
              (Some (VObject (Ref 6) ''Object'' None [(KStr ''a'', num 1)] [(KStr ''a'', Setter)])) [] []) = []"
  by (simp add: transformObject_def Number_def transform_constructor defaultTransformer_def)

subsection \<open>No exception from the core\<close>










subsection \<open>Reconfiguration\<close>

lemma config_members:
  "validate (config g c) = (case validate_o c of Some v \<Rightarrow> v | None \<Rightarrow> validate g)"
  "transform (config g c) = (case transform_o c of Some t \<Rightarrow> t | None \<Rightarrow> transform g)"
  "DEF (config g c) = Typeguard"
  by (simp_all add: config_def validate_constructor transform_constructor DEF_constructor)

lemma config_empty:
  "validate (config g \<lparr>validate_o = None, transform_o = None\<rparr>) v = validate g v"
  "transform (config g \<lparr>validate_o = None, transform_o = None\<rparr>) v = transform g v"
  by (simp_all add: config_members)

lemma definitionOf_config: "definitionOf (OfGuard (config g c)) = guardObject (config g c)"
  by (simp add: definitionOf_def config_members)

text \<open>
  C2 at \<^verbatim>\<open>Schema({a: Number, b: String}).config({})\<close>. The new guard has the validate and
  transform of the overrides or else of the original, but \<^verbatim>\<open>config\<close> calls
  \<^verbatim>\<open>constructor\<close> without its third argument, so the new guard carries \<^verbatim>\<open>'typeguard'\<close>:
  it is no longer schema-shaped and \<^verbatim>\<open>definition('a')\<close> is \<^verbatim>\<open>undefined\<close>, while the
  original holds its schema definition. \<^verbatim>\<open>Partial\<close> of the reconfigured schema then reads
  the guard object as the definition and rejects \<^verbatim>\<open>{a: 1}\<close>.
\<close>

theorem config_drops_definition:
  "validate (config g c) = (case validate_o c of Some v \<Rightarrow> v | None \<Rightarrow> validate g) \<and>
   transform (config g c) = (case transform_o c of Some t \<Rightarrow> t | None \<Rightarrow> transform g) \<and>
   DEF (config g c) = Typeguard \<and>
   DEF SchemaA = Shape (shape 1 [(KStr ''a'', TG Number), (KStr ''b'', TG String)]) \<and>
   DEF (config SchemaA \<lparr>validate_o = None, transform_o = None\<rparr>) = Typeguard \<and>
   isSchemaTypeGuard (TG SchemaA) \<and>
   \<not> isSchemaTypeGuard (TG (config SchemaA \<lparr>validate_o = None, transform_o = None\<rparr>)) \<and>
   definition_m SchemaA (Some (KStr ''a'')) = TG Number \<and>
   definition_m (config SchemaA \<lparr>validate_o = None, transform_o = None\<rparr>) (Some (KStr ''a''))
     = TAtom AUndefined \<and>
   validate (Partial (OfGuard SchemaA)) (obj 3 [(KStr ''a'', num 1)]) \<and>
   \<not> validate (Partial (OfGuard (config SchemaA \<lparr>validate_o = None, transform_o = None\<rparr>)))
        (obj 3 [(KStr ''a'', num 1)])"
proof -
  have "validate (Partial (OfGuard SchemaA)) (obj 3 [(KStr ''a'', num 1)])"
    by (simp add: SchemaA_def eval_schema)
  moreover have "\<not> validate (Partial (OfGuard (config SchemaA \<lparr>validate_o = None, transform_o = None\<rparr>)))
        (obj 3 [(KStr ''a'', num 1)])"
    by (simp add: Partial_validate definitionOf_config guardObject_def validateObject.simps ownKeysD_def)
  ultimately show ?thesis
    by (simp add: config_members SchemaA_def Schema_DEF isSchemaTypeGuard_def definition_m_def)
qed

subsection \<open>Record\<close>

lemma Record_validate:
  "validate (Record keys val) ob =
     (if (case keys of TArray r ks \<Rightarrow> False | TG kg \<Rightarrow> False | _ \<Rightarrow> True) then False
      else if \<not> isPlainObject ob then False
      else list_all (\<lambda>key.
             (case keys of
                TG kg \<Rightarrow> validate kg (keyValue key)
              | TArray r ks \<Rightarrow> list_ex (\<lambda>k. lit (validKey k) = Some (keyValue key)) ks
              | _ \<Rightarrow> False)
             \<and> (case val of
                  TG vg \<Rightarrow> validate vg (getV ob key)
                | _ \<Rightarrow> strictEquals val (getV ob key)))
           (ownKeys ob))"
  by (simp add: Record_def validate_constructor)

text \<open>
  For a value definition that is a primitive, a function or a class instance, the identity
  test of the record and \<^verbatim>\<open>validateValue\<close> agree; they differ on array and plain-object
  literals.
\<close>

lemma validateValue_atom: "validateValue v (TAtom a) = strictEquals (TAtom a) v"
proof (cases "typeofA a = ''object''")
  case True
  then have "a = ANull \<or> (\<exists>i. a = AInstance i)" by (cases a) simp_all
  then show ?thesis by (auto simp: strictEquals_def)
next
  case False
  then show ?thesis by simp
qed

text \<open>
  C3 at \<^verbatim>\<open>Record(['k'], [1, 2])\<close> and \<^verbatim>\<open>Record(['k'], {a: Number})\<close>. The value definition
  \<^verbatim>\<open>[1, 2]\<close> matches another array \<^verbatim>\<open>[1, 2]\<close> under \<^verbatim>\<open>validateValue\<close>, but the record
  rejects \<^verbatim>\<open>{k: [1, 2]}\<close> unless the property is the very array of the definition; the
  shape \<^verbatim>\<open>{a: Number}\<close> matches \<^verbatim>\<open>{a: 1}\<close> under \<^verbatim>\<open>validateValue\<close>, but the record
  rejects \<^verbatim>\<open>{k: {a: 1}}\<close>.
\<close>

theorem Record_literal_value_by_identity:
  "validateValue (VArray (Ref 4) False [num 1, num 2])
                 (TArray (Ref 2) [TAtom (ANumber (Num 1)), TAtom (ANumber (Num 2))]) \<and>
   \<not> validate (Record (TArray (Ref 1) [TAtom (AString ''k'')])
                       (TArray (Ref 2) [TAtom (ANumber (Num 1)), TAtom (ANumber (Num 2))]))
              (obj 3 [(KStr ''k'', VArray (Ref 4) False [num 1, num 2])]) \<and>
   validate (Record (TArray (Ref 1) [TAtom (AString ''k'')])
                    (TArray (Ref 2) [TAtom (ANumber (Num 1)), TAtom (ANumber (Num 2))]))
            (obj 3 [(KStr ''k'', VArray (Ref 2) False [num 1, num 2])]) \<and>
   validateValue (obj 4 [(KStr ''a'', num 1)]) (TObject (shape 2 [(KStr ''a'', TG Number)])) \<and>
   \<not> validate (Record (TArray (Ref 1) [TAtom (AString ''k'')])
                       (TObject (shape 2 [(KStr ''a'', TG Number)])))
              (obj 3 [(KStr ''k'', obj 4 [(KStr ''a'', num 1)])])"
  by (simp add: Record_validate strictEquals_def validateObject.simps ownKeysD_def Number_validate)


end
